theory Spec2Isabelle
  imports Main "HOL-Library.Sublist" "HOL-Library.AList"
begin

section \<open>The L402 payment session of the SatGate Python SDK\<close>

text \<open>
  This theory embeds \<^verbatim>\<open>sdk/python/satgate/client.py\<close>: the class
  \<^verbatim>\<open>SatGateSession\<close> with its two methods \<^verbatim>\<open>request\<close> and
  \<^verbatim>\<open>_handle_payment_flow\<close>. The HTTP transport (\<^verbatim>\<open>super().request\<close>,
  that is \<^verbatim>\<open>requests.Session.request\<close>) and the wallet
  (\<^verbatim>\<open>self.wallet.pay_invoice\<close>) are external: they are parameters of the model,
  arbitrary functions of an abstract world state, and every invocation of either is
  appended to a trace together with its outcome.

  Strings are byte lists. The code only searches for ASCII patterns, cuts at the ASCII
  double quote and concatenates, and the byte \<open>0x22\<close> never occurs inside a multi-byte
  UTF-8 sequence, so bytes and code points agree on everything modelled here.
  The \<^verbatim>\<open>print\<close> calls (and the slices they format) are presentation only and are
  not modelled.
\<close>

subsection \<open>Data\<close>

type_synonym addr = nat

text \<open>
  A Python \<^verbatim>\<open>dict\<close> of request headers: an association list in insertion order
  with distinct keys. \<^verbatim>\<open>d[k] = v\<close> is \<^const>\<open>AList.update\<close>: an existing key
  keeps its position, a new key is appended. Dicts are objects: they live in a heap
  (a list of dicts, the address being the index) and a request refers to one by address,
  so that copying and mutating in place are different things in the model.
\<close>

type_synonym py_dict = "(string \<times> string) list"

text \<open>
  The value bound to the keyword \<^verbatim>\<open>headers\<close>, which \<^verbatim>\<open>requests\<close> types as an
  optional mapping: \<^verbatim>\<open>None\<close> or a reference to a dict.
\<close>

datatype headers_arg = PyNone | PyDict addr

text \<open>
  The arguments of one call \<^verbatim>\<open>request(method, url, *args, **kwargs)\<close>.
  \<^verbatim>\<open>kwargs\<close> is split into its \<^verbatim>\<open>"headers"\<close> entry (\<open>None\<close>: the key is absent)
  and all other entries, which the session never inspects; positional arguments after
  \<^verbatim>\<open>url\<close> and the other keyword values are opaque. The field \<open>http_method\<close> is
  the parameter \<^verbatim>\<open>method\<close>, whose name is a keyword of Isabelle.
\<close>

record call =
  http_method :: string
  url :: string
  args :: "string list"
  headers_kw :: "headers_arg option"
  other_kwargs :: "(string \<times> string) list"

text \<open>
  A \<^verbatim>\<open>requests.Response\<close>. The field \<open>headers\<close> is the lookup
  \<^verbatim>\<open>response.headers.get\<close> of the library's header container.
\<close>

record response =
  status_code :: int
  headers :: "string \<rightharpoonup> string"
  content :: string

text \<open>
  Exceptions, as values. \<open>RequestException\<close> stands for
  \<^verbatim>\<open>requests.exceptions.RequestException\<close> and its subclasses, \<open>ValueError\<close> is
  the one the session raises itself, \<open>OtherException\<close> is any other class derived
  from \<^verbatim>\<open>Exception\<close>. Interpreter signals that derive from
  \<^verbatim>\<open>BaseException\<close> only (\<^verbatim>\<open>KeyboardInterrupt\<close>, \<^verbatim>\<open>SystemExit\<close>) are
  not failures of a collaborator and are outside the model.
\<close>

datatype py_exception = RequestException string | ValueError string | OtherException string

text \<open>
  What the wallet returns: \<^verbatim>\<open>pay_invoice\<close> is annotated \<^verbatim>\<open>-> str\<close>; \<open>None\<close>
  is Python's \<^verbatim>\<open>None\<close>.
\<close>

type_synonym preimage = "string option"

datatype event =
    Sent call "py_dict list" "py_exception + response"
  | Paid string "py_exception + preimage"

record 'w state =
  world :: 'w
  heap :: "py_dict list"
  trace :: "event list"

record 'w session =
  transport :: "'w \<Rightarrow> call \<Rightarrow> py_dict list \<Rightarrow> (py_exception + response) \<times> 'w"
  wallet_pay_invoice :: "'w \<Rightarrow> string \<Rightarrow> (py_exception + preimage) \<times> 'w"

subsection \<open>String operations\<close>

definition dquote :: char where
  "dquote = CHR 0x22"

text \<open>\<^verbatim>\<open>sub in s\<close>: \<open>sub\<close> occurs in \<open>s\<close> as a substring.\<close>

fun str_in :: "string \<Rightarrow> string \<Rightarrow> bool" where
  "str_in sub [] = (sub = [])"
| "str_in sub (c # cs) = (prefix sub (c # cs) \<or> str_in sub cs)"

text \<open>
  The regular expressions \<^verbatim>\<open>macaroon="([^"]+)"\<close> and \<^verbatim>\<open>invoice="([^"]+)"\<close>.
  \<open>quoted_group s\<close> matches \<^verbatim>\<open>([^"]+)"\<close> at the start of \<open>s\<close>: the greedy class
  takes the longest run of characters other than the double quote (newlines included);
  the match succeeds iff the run is not empty and a character follows it, which then is
  the closing quote. Backtracking to a shorter run cannot help, since a shorter run is
  followed by a character of the run. \<open>match_at key s\<close> matches the whole pattern at
  the start of \<open>s\<close>, and \<open>re_search key s\<close> is \<^verbatim>\<open>re.search\<close>: the match at the
  leftmost position that has one, reduced to its group 1.
\<close>

definition quoted_group :: "string \<Rightarrow> string option" where
  "quoted_group s =
     (let v = takeWhile (\<lambda>c. c \<noteq> dquote) s
      in if v \<noteq> [] \<and> length v < length s then Some v else None)"

definition match_at :: "string \<Rightarrow> string \<Rightarrow> string option" where
  "match_at key s =
     (if prefix (key @ ''='' @ [dquote]) s
      then quoted_group (drop (length key + 2) s) else None)"

fun re_search :: "string \<Rightarrow> string \<Rightarrow> string option" where
  "re_search key [] = match_at key []"
| "re_search key (c # cs) =
     (case match_at key (c # cs) of Some v \<Rightarrow> Some v | None \<Rightarrow> re_search key cs)"

subsection \<open>The collaborators and the heap\<close>

text \<open>\<^verbatim>\<open>super().request(method, url, *args, **kwargs)\<close>, logged.\<close>

definition super_request ::
  "'w session \<Rightarrow> call \<Rightarrow> 'w state \<Rightarrow> (py_exception + response) \<times> 'w state" where
  "super_request self c st =
     (case transport self (world st) c (heap st) of
        (r, w) \<Rightarrow> (r, st\<lparr>world := w, trace := trace st @ [Sent c (heap st) r]\<rparr>))"

text \<open>\<^verbatim>\<open>self.wallet.pay_invoice(invoice)\<close>, logged.\<close>

definition pay_invoice ::
  "'w session \<Rightarrow> string \<Rightarrow> 'w state \<Rightarrow> (py_exception + preimage) \<times> 'w state" where
  "pay_invoice self invoice st =
     (case wallet_pay_invoice self (world st) invoice of
        (r, w) \<Rightarrow> (r, st\<lparr>world := w, trace := trace st @ [Paid invoice r]\<rparr>))"

text \<open>A new dict object (\<^verbatim>\<open>{}\<close>, \<^verbatim>\<open>d.copy()\<close>) gets the next free address.\<close>

definition new_dict :: "py_dict \<Rightarrow> 'w state \<Rightarrow> addr \<times> 'w state" where
  "new_dict d st = (length (heap st), st\<lparr>heap := heap st @ [d]\<rparr>)"

text \<open>
  Reading a dict. Python has no dangling references, so the address of a caller's dict
  is always below the length of the heap; the other branch only makes the function total.
\<close>

definition deref :: "'w state \<Rightarrow> addr \<Rightarrow> py_dict" where
  "deref st a = (if a < length (heap st) then heap st ! a else [])"

text \<open>\<^verbatim>\<open>d[k] = v\<close> on the dict at address \<open>a\<close>, in place.\<close>

definition setitem :: "addr \<Rightarrow> string \<Rightarrow> string \<Rightarrow> 'w state \<Rightarrow> 'w state" where
  "setitem a k v st = st\<lparr>heap := (heap st)[a := AList.update k v (deref st a)]\<rparr>"

subsection \<open>The session\<close>

text \<open>
  \<^verbatim>\<open>_handle_payment_flow\<close>, lines 37 to 98. The \<^verbatim>\<open>try\<close> block of part B is the
  inner \<open>case\<close> on the wallet's outcome: an exception of the wallet, and the
  \<^verbatim>\<open>ValueError\<close> raised for a falsy preimage (\<^verbatim>\<open>None\<close> or the empty string), are
  both caught by \<^verbatim>\<open>except Exception\<close>, which returns the 402 response. In part C
  the default \<^verbatim>\<open>{}\<close> of \<^verbatim>\<open>kwargs.get("headers", {})\<close> is built before the lookup,
  as Python evaluates arguments first.
\<close>

definition handle_payment_flow ::
  "'w session \<Rightarrow> response \<Rightarrow> call \<Rightarrow> 'w state \<Rightarrow> (py_exception + response) \<times> 'w state" where
  "handle_payment_flow self response c st =
     (case headers response ''WWW-Authenticate'' of
        None \<Rightarrow> (Inr response, st)
      | Some auth_header \<Rightarrow>
          if auth_header = [] then (Inr response, st)
          else if \<not> str_in ''L402'' auth_header \<and> \<not> str_in ''LSAT'' auth_header
          then (Inr response, st)
          else
            (case re_search ''macaroon'' auth_header of
               None \<Rightarrow> (Inr response, st)
             | Some macaroon \<Rightarrow>
            (case re_search ''invoice'' auth_header of
               None \<Rightarrow> (Inr response, st)
             | Some invoice \<Rightarrow>
            (case
               (case pay_invoice self invoice st of
                  (Inl e, st1) \<Rightarrow> (Inl e, st1)
                | (Inr None, st1) \<Rightarrow> (Inl (ValueError ''Wallet returned empty preimage''), st1)
                | (Inr (Some p), st1) \<Rightarrow>
                    if p = [] then (Inl (ValueError ''Wallet returned empty preimage''), st1)
                    else (Inr p, st1))
             of
               (Inl e, st1) \<Rightarrow> (Inr response, st1)
             | (Inr preimage, st1) \<Rightarrow>
                 (let l402_token = ''L402 '' @ macaroon @ '':'' @ preimage;
                      (dflt, st2) = new_dict [] st1;
                      req_headers = (case headers_kw c of None \<Rightarrow> PyDict dflt | Some v \<Rightarrow> v);
                      (a, st3) = (case req_headers of
                                    PyNone \<Rightarrow> new_dict [] st2
                                  | PyDict a \<Rightarrow> (a, st2));
                      (b, st4) = new_dict (deref st3 a) st3;
                      st5 = setitem b ''Authorization'' l402_token st4
                  in super_request self (c\<lparr>headers_kw := Some (PyDict b)\<rparr>) st5)))))"

text \<open>
  \<^verbatim>\<open>request\<close>, lines 23 to 35. The handler re-raises a
  \<^verbatim>\<open>RequestException\<close>; any other exception of the transport is not caught and
  propagates as well.
\<close>

definition request ::
  "'w session \<Rightarrow> call \<Rightarrow> 'w state \<Rightarrow> (py_exception + response) \<times> 'w state" where
  "request self c st =
     (case super_request self c st of
        (Inl e, st0) \<Rightarrow>
          (case e of RequestException m \<Rightarrow> (Inl (RequestException m), st0) | _ \<Rightarrow> (Inl e, st0))
      | (Inr response, st0) \<Rightarrow>
          if status_code response = 402 then handle_payment_flow self response c st0
          else (Inr response, st0))"

subsection \<open>Observing one call\<close>

text \<open>The events one call adds to the trace, and the two counters the properties use.\<close>

definition new_events :: "'w state \<Rightarrow> 'w state \<Rightarrow> event list" where
  "new_events st st' = drop (length (trace st)) (trace st')"

fun is_Sent :: "event \<Rightarrow> bool" where
  "is_Sent (Sent c h r) = True"
| "is_Sent (Paid i r) = False"

definition sends :: "event list \<Rightarrow> nat" where
  "sends evs = length (filter is_Sent evs)"

definition payments :: "event list \<Rightarrow> nat" where
  "payments evs = length (filter (\<lambda>e. \<not> is_Sent e) evs)"

definition sent_headers :: "call \<Rightarrow> py_dict list \<Rightarrow> py_dict" where
  "sent_headers c h =
     (case headers_kw c of
        Some (PyDict a) \<Rightarrow> (if a < length h then h ! a else [])
      | _ \<Rightarrow> [])"

subsection \<open>The challenge header as the specification writes it\<close>

text \<open>
  The definitions of this subsection do not come from the code. They write down the
  header format of the specification,
  \<^verbatim>\<open><scheme> key1="value1", key2="value2", ...\<close>, and what the specification
  calls a key that is absent, unquoted or empty, so that the parser of the code can be
  compared with them.
\<close>

definition quoted :: "string \<Rightarrow> string" where
  "quoted v = dquote # v @ [dquote]"

fun render_params :: "(string \<times> string) list \<Rightarrow> string" where
  "render_params [] = []"
| "render_params [(k, v)] = k @ ''='' @ quoted v"
| "render_params ((k, v) # p # ps) = k @ ''='' @ quoted v @ '', '' @ render_params (p # ps)"

definition challenge_header :: "string \<Rightarrow> (string \<times> string) list \<Rightarrow> string" where
  "challenge_header scheme ps = scheme @ '' '' @ render_params ps"

text \<open>
  The scheme token of a header in that format: the text before the first space.
\<close>

definition scheme_token :: "string \<Rightarrow> string" where
  "scheme_token h = takeWhile (\<lambda>c. c \<noteq> CHR '' '') h"

text \<open>
  \<open>no_quoted_value key h\<close>: at every place of \<open>h\<close> where the text \<open>key=\<close> occurs,
  what follows is either not a double quote (the value is unquoted) or two double quotes
  (the quoted value is empty). A header in which \<open>key=\<close> does not occur at all (the key
  is absent) satisfies it trivially.
\<close>

fun no_quoted_value :: "string \<Rightarrow> string \<Rightarrow> bool" where
  "no_quoted_value key [] = True"
| "no_quoted_value key (c # cs) =
     ((prefix (key @ ''='') (c # cs) \<longrightarrow>
         (\<not> prefix [dquote] (drop (length key + 1) (c # cs))
          \<or> prefix [dquote, dquote] (drop (length key + 1) (c # cs))))
      \<and> no_quoted_value key cs)"

text \<open>
  A parameter \<open>(k, v)\<close> of a header is plain for \<open>key\<close> when neither its key nor
  its value contains a double quote, its value does not end in \<open>key=\<close>, and its key,
  unless it is \<open>key\<close> itself, does not end in \<open>key\<close>.
\<close>

definition plain_for :: "string \<Rightarrow> string \<times> string \<Rightarrow> bool" where
  "plain_for key p =
     (dquote \<notin> set (fst p) \<and> dquote \<notin> set (snd p)
      \<and> \<not> suffix (key @ ''='') (snd p)
      \<and> (fst p \<noteq> key \<longrightarrow> \<not> suffix key (fst p)))"

subsection \<open>Test doubles\<close>

text \<open>
  A transport that answers from a script (the world state is the list of outcomes still
  to come; with the script used up the connection fails), and a wallet with one fixed
  outcome, as the mock wallet of \<^verbatim>\<open>examples/demo_agent.py\<close> has.
\<close>

definition scripted :: "(py_exception + preimage) \<Rightarrow> ((py_exception + response) list) session" where
  "scripted paid =
     \<lparr>transport = (\<lambda>w c h. case w of
                               [] \<Rightarrow> (Inl (RequestException ''connection refused''), [])
                             | r # rs \<Rightarrow> (r, rs)),
      wallet_pay_invoice = (\<lambda>w i. (paid, w))\<rparr>"

definition challenge_402 :: "string \<Rightarrow> response" where
  "challenge_402 h =
     \<lparr>status_code = 402, headers = [''WWW-Authenticate'' \<mapsto> h], content = ''Payment Required''\<rparr>"

definition bare_402 :: response where
  "bare_402 = \<lparr>status_code = 402, headers = Map.empty, content = ''Payment Required''\<rparr>"

definition ok_200 :: response where
  "ok_200 = \<lparr>status_code = 200, headers = Map.empty, content = ''premium data''\<rparr>"

definition get_call :: "headers_arg option \<Rightarrow> call" where
  "get_call hk =
     \<lparr>http_method = ''GET'', url = ''http://localhost:8081/api/premium/insights'', args = [],
      headers_kw = hk, other_kwargs = [(''timeout'', ''5'')]\<rparr>"

definition start :: "'w \<Rightarrow> py_dict list \<Rightarrow> 'w state" where
  "start w h = \<lparr>world = w, heap = h, trace = []\<rparr>"

text \<open>The challenge of the specification's end-to-end scenario A.\<close>

definition scenario_header :: string where
  "scenario_header = ''L402 macaroon='' @ quoted ''M1'' @ '', invoice='' @ quoted ''lnbc1''"
text \<open>A world in which the first answer is that challenge and the second is a 200.\<close>

definition paywalled :: "(py_exception + response) list state" where
  "paywalled = start [Inr (challenge_402 scenario_header), Inr ok_200] []"

text \<open>
  A challenge with the other scheme token, and a world that answers with it to a caller
  whose header dict is the object at address 0.
\<close>

definition lsat_header :: string where
  "lsat_header = ''LSAT macaroon='' @ quoted ''abc'' @ '', invoice='' @ quoted ''lnbc1''"

definition lsat_paywalled :: "(py_exception + response) list state" where
  "lsat_paywalled =
     \<lparr>world = [Inr (challenge_402 lsat_header), Inr ok_200],
      heap = [[(''Accept'', ''application/json''), (''Authorization'', ''Bearer old'')]],
      trace = []\<rparr>"

text \<open>
  A header whose scheme is not a payment scheme and whose keys only end in the names
  the session looks for.
\<close>

definition suffix_key_header :: string where
  "suffix_key_header =
     challenge_header ''Basic''
       [(''realm'', ''L402''), (''notmacaroon'', ''M9''), (''notinvoice'', ''lnbc9'')]"

text \<open>
  Two headers in the format of the specification: one with the scheme \<open>L402\<close> and
  no parameter named \<open>macaroon\<close>, one with both parameters and the scheme
  \<open>Basic\<close>.
\<close>

definition xmacaroon_header :: string where
  "xmacaroon_header = challenge_header ''L402'' [(''xmacaroon'', ''X1''), (''invoice'', ''lnbc1'')]"

definition basic_header :: string where
  "basic_header =
     challenge_header ''Basic'' [(''realm'', ''LSAT''), (''macaroon'', ''M1''), (''invoice'', ''lnbc1'')]"

section \<open>Properties\<close>

subsection \<open>The paths through one call\<close>


lemmas example_defs = scripted_def challenge_402_def bare_402_def ok_200_def get_call_def
  start_def quoted_def dquote_def match_at_def quoted_group_def challenge_header_def

lemmas session_defs = request_def handle_payment_flow_def super_request_def pay_invoice_def
  new_dict_def setitem_def deref_def new_events_def sent_headers_def Let_def

lemma super_request_eq:
  "super_request self c st =
     (fst (transport self (world st) c (heap st)),
      st\<lparr>world := snd (transport self (world st) c (heap st)),
         trace := trace st @ [Sent c (heap st) (fst (transport self (world st) c (heap st)))]\<rparr>)"
  by (simp add: super_request_def split: prod.splits)

lemma pay_invoice_eq:
  "pay_invoice self i st =
     (fst (wallet_pay_invoice self (world st) i),
      st\<lparr>world := snd (wallet_pay_invoice self (world st) i),
         trace := trace st @ [Paid i (fst (wallet_pay_invoice self (world st) i))]\<rparr>)"
  by (simp add: pay_invoice_def split: prod.splits)

lemma flow_events:
  "\<exists>evs. trace (snd (handle_payment_flow self resp c st)) = trace st @ evs \<and>
     (evs = [] \<and> fst (handle_payment_flow self resp c st) = Inr resp
      \<or> (\<exists>i r. evs = [Paid i r] \<and> fst (handle_payment_flow self resp c st) = Inr resp)
      \<or> (\<exists>i p c2 h2 r2. evs = [Paid i (Inr (Some p)), Sent c2 h2 r2] \<and> p \<noteq> []
            \<and> fst (handle_payment_flow self resp c st) = r2))"
  unfolding handle_payment_flow_def
  by (auto simp: super_request_eq pay_invoice_eq new_dict_def setitem_def Let_def
      split: option.splits sum.splits prod.splits headers_arg.splits if_splits)

lemma request_events:
  "\<exists>r0 evs. new_events st (snd (request self c st)) = Sent c (heap st) r0 # evs \<and>
     (evs = [] \<and> fst (request self c st) = r0
      \<or> (\<exists>resp i r. r0 = Inr resp \<and> evs = [Paid i r] \<and> fst (request self c st) = Inr resp)
      \<or> (\<exists>resp i p c2 h2 r2. r0 = Inr resp \<and> evs = [Paid i (Inr (Some p)), Sent c2 h2 r2]
            \<and> p \<noteq> [] \<and> fst (request self c st) = r2))"
proof (cases "fst (transport self (world st) c (heap st))")
  case (Inl e)
  then show ?thesis
    by (simp add: request_def super_request_eq new_events_def split: py_exception.splits)
next
  case (Inr resp)
  let ?st0 = "snd (super_request self c st)"
  show ?thesis
  proof (cases "status_code resp = 402")
    case False
    with Inr show ?thesis
      by (simp add: request_def super_request_eq new_events_def)
  next
    case True
    with Inr have eq: "request self c st = handle_payment_flow self resp c ?st0"
      by (simp add: request_def super_request_eq)
    have tr: "trace ?st0 = trace st @ [Sent c (heap st) (Inr resp)]"
      using Inr by (simp add: super_request_eq)
    from flow_events [of self resp c ?st0] obtain evs where
      evs: "trace (snd (handle_payment_flow self resp c ?st0)) = trace ?st0 @ evs"
        "evs = [] \<and> fst (handle_payment_flow self resp c ?st0) = Inr resp
          \<or> (\<exists>i r. evs = [Paid i r] \<and> fst (handle_payment_flow self resp c ?st0) = Inr resp)
          \<or> (\<exists>i p c2 h2 r2. evs = [Paid i (Inr (Some p)), Sent c2 h2 r2] \<and> p \<noteq> []
                \<and> fst (handle_payment_flow self resp c ?st0) = r2)"
      by blast
    have "new_events st (snd (request self c st)) = Sent c (heap st) (Inr resp) # evs"
      using evs(1) tr by (simp add: eq new_events_def)
    with evs(2) show ?thesis
      by (simp add: eq)
  qed
qed

lemma request_transport_error:
  assumes "transport self (world st) c (heap st) = (Inl e, w)"
  shows "request self c st =
           (Inl e, st\<lparr>world := w, trace := trace st @ [Sent c (heap st) (Inl e)]\<rparr>)"
  using assms by (simp add: request_def super_request_def split: py_exception.splits)

lemma request_other_status:
  assumes "transport self (world st) c (heap st) = (Inr resp, w)"
    and "status_code resp \<noteq> 402"
  shows "request self c st =
           (Inr resp, st\<lparr>world := w, trace := trace st @ [Sent c (heap st) (Inr resp)]\<rparr>)"
  using assms by (simp add: request_def super_request_def)

lemma request_402:
  assumes "transport self (world st) c (heap st) = (Inr resp, w)"
    and "status_code resp = 402"
  shows "request self c st =
           handle_payment_flow self resp c
             (st\<lparr>world := w, trace := trace st @ [Sent c (heap st) (Inr resp)]\<rparr>)"
  using assms by (simp add: request_def super_request_def)

lemma flow_no_challenge:
  assumes "case headers resp ''WWW-Authenticate'' of
             None \<Rightarrow> True
           | Some h \<Rightarrow> (\<not> str_in ''L402'' h \<and> \<not> str_in ''LSAT'' h)
                       \<or> re_search ''macaroon'' h = None \<or> re_search ''invoice'' h = None"
  shows "handle_payment_flow self resp c st = (Inr resp, st)"
  using assms
  by (auto simp: handle_payment_flow_def split: option.splits)

lemma flow_payment_failed:
  assumes "headers resp ''WWW-Authenticate'' = Some h"
    and "str_in ''L402'' h \<or> str_in ''LSAT'' h"
    and "re_search ''macaroon'' h = Some M"
    and "re_search ''invoice'' h = Some I"
    and "wallet_pay_invoice self (world st) I = (r, w)"
    and "(\<exists>e. r = Inl e) \<or> r = Inr None \<or> r = Inr (Some [])"
  shows "handle_payment_flow self resp c st =
           (Inr resp, st\<lparr>world := w, trace := trace st @ [Paid I r]\<rparr>)"
proof -
  from assms(2) have "h \<noteq> []" by auto
  with assms show ?thesis
    by (auto simp: handle_payment_flow_def pay_invoice_def)
qed

text \<open>
  The paid path: the retried call, the address of its headers and the heap it is sent
  with, written out.
\<close>

lemma flow_paid:
  assumes "headers resp ''WWW-Authenticate'' = Some h"
    and "str_in ''L402'' h \<or> str_in ''LSAT'' h"
    and "re_search ''macaroon'' h = Some M"
    and "re_search ''invoice'' h = Some I"
    and "wallet_pay_invoice self (world st) I = (Inr (Some P), w)"
    and "P \<noteq> []"
  shows "handle_payment_flow self resp c st =
           super_request self
             (c\<lparr>headers_kw :=
                  Some (PyDict (length (heap st) + (if headers_kw c = Some PyNone then 2 else 1)))\<rparr>)
             (st\<lparr>world := w,
                 heap := heap st @ [] # (if headers_kw c = Some PyNone then [[]] else [])
                           @ [AList.update ''Authorization'' (''L402 '' @ M @ '':'' @ P)
                                (sent_headers c (heap st))],
                 trace := trace st @ [Paid I (Inr (Some P))]\<rparr>)"
proof -
  from assms(2) have "h \<noteq> []" by auto
  with assms show ?thesis
    by (auto simp: handle_payment_flow_def pay_invoice_def new_dict_def setitem_def deref_def
        sent_headers_def super_request_eq nth_append Let_def
        split: option.splits headers_arg.splits)
qed

lemma request_paid:
  assumes "transport self (world st) c (heap st) = (Inr resp, w0)"
    and "status_code resp = 402"
    and "headers resp ''WWW-Authenticate'' = Some h"
    and "str_in ''L402'' h \<or> str_in ''LSAT'' h"
    and "re_search ''macaroon'' h = Some M"
    and "re_search ''invoice'' h = Some I"
    and "wallet_pay_invoice self w0 I = (Inr (Some P), w)"
    and "P \<noteq> []"
  shows "\<exists>b h2 r2 w2.
           request self c st =
             (r2, st\<lparr>world := w2, heap := h2,
                    trace := trace st @ [Sent c (heap st) (Inr resp), Paid I (Inr (Some P)),
                                         Sent (c\<lparr>headers_kw := Some (PyDict b)\<rparr>) h2 r2]\<rparr>)
         \<and> transport self w (c\<lparr>headers_kw := Some (PyDict b)\<rparr>) h2 = (r2, w2)
         \<and> prefix (heap st) h2 \<and> length (heap st) \<le> b \<and> b < length h2
         \<and> h2 ! b = AList.update ''Authorization'' (''L402 '' @ M @ '':'' @ P)
                      (sent_headers c (heap st))"
proof -
  let ?st0 = "st\<lparr>world := w0, trace := trace st @ [Sent c (heap st) (Inr resp)]\<rparr>"
  let ?b = "length (heap st) + (if headers_kw c = Some PyNone then 2 else 1)"
  let ?h2 = "heap st @ [] # (if headers_kw c = Some PyNone then [[]] else [])
               @ [AList.update ''Authorization'' (''L402 '' @ M @ '':'' @ P)
                    (sent_headers c (heap st))]"
  let ?c2 = "c\<lparr>headers_kw := Some (PyDict ?b)\<rparr>"
  have pay: "wallet_pay_invoice self (world ?st0) I = (Inr (Some P), w)"
    using assms(7) by simp
  have "request self c st = handle_payment_flow self resp c ?st0"
    by (rule request_402 [OF assms(1,2)])
  also have "\<dots> = super_request self ?c2
      (?st0\<lparr>world := w, heap := ?h2, trace := trace ?st0 @ [Paid I (Inr (Some P))]\<rparr>)"
    using flow_paid [OF assms(3,4,5,6) pay assms(8), of c] by simp
  finally have eq: "request self c st =
      (fst (transport self w ?c2 ?h2),
       st\<lparr>world := snd (transport self w ?c2 ?h2), heap := ?h2,
          trace := trace st @ [Sent c (heap st) (Inr resp), Paid I (Inr (Some P)),
                               Sent ?c2 ?h2 (fst (transport self w ?c2 ?h2))]\<rparr>)"
    by (simp add: super_request_eq)
  have "?h2 ! ?b = AList.update ''Authorization'' (''L402 '' @ M @ '':'' @ P)
                      (sent_headers c (heap st))"
    by (simp add: nth_append)
  moreover have "prefix (heap st) ?h2" "length (heap st) \<le> ?b" "?b < length ?h2"
    by simp_all
  ultimately show ?thesis
    using eq by (intro exI [of _ ?b] exI [of _ ?h2] exI [of _ "fst (transport self w ?c2 ?h2)"]
        exI [of _ "snd (transport self w ?c2 ?h2)"]) simp
qed


lemma request_payment_failed:
  assumes "transport self (world st) c (heap st) = (Inr resp, w0)"
    and "status_code resp = 402"
    and "headers resp ''WWW-Authenticate'' = Some h"
    and "str_in ''L402'' h \<or> str_in ''LSAT'' h"
    and "re_search ''macaroon'' h = Some M"
    and "re_search ''invoice'' h = Some I"
    and "wallet_pay_invoice self w0 I = (r, w)"
    and "(\<exists>e. r = Inl e) \<or> r = Inr None \<or> r = Inr (Some [])"
  shows "request self c st =
           (Inr resp, st\<lparr>world := w,
                         trace := trace st @ [Sent c (heap st) (Inr resp), Paid I r]\<rparr>)"
proof -
  let ?st0 = "st\<lparr>world := w0, trace := trace st @ [Sent c (heap st) (Inr resp)]\<rparr>"
  have pay: "wallet_pay_invoice self (world ?st0) I = (r, w)"
    using assms(7) by simp
  have "request self c st = handle_payment_flow self resp c ?st0"
    by (rule request_402 [OF assms(1,2)])
  also have "\<dots> = (Inr resp, ?st0\<lparr>world := w, trace := trace ?st0 @ [Paid I r]\<rparr>)"
    by (rule flow_payment_failed [OF assms(3,4,5,6) pay assms(8)])
  finally show ?thesis by simp
qed

lemma request_no_challenge:
  assumes "transport self (world st) c (heap st) = (Inr resp, w)"
    and "status_code resp = 402"
    and "case headers resp ''WWW-Authenticate'' of
             None \<Rightarrow> True
           | Some h \<Rightarrow> (\<not> str_in ''L402'' h \<and> \<not> str_in ''LSAT'' h)
                       \<or> re_search ''macaroon'' h = None \<or> re_search ''invoice'' h = None"
  shows "request self c st =
           (Inr resp, st\<lparr>world := w, trace := trace st @ [Sent c (heap st) (Inr resp)]\<rparr>)"
  using request_402 [OF assms(1,2)] flow_no_challenge [OF assms(3)] by simp

subsection \<open>At most one payment, at most two sends\<close>

text \<open>
  Claim C1. One call to \<open>request\<close> invokes the wallet at most once and the transport at
  most twice. When the transport was invoked twice, the outcome of the second
  invocation is what the call returns, whatever its status: a second 402 is handed to
  the caller as it is and the payment flow is not entered again.
\<close>

theorem request_pays_once_sends_twice:
  "payments (new_events st (snd (request self c st))) \<le> 1
   \<and> sends (new_events st (snd (request self c st))) \<le> 2
   \<and> (\<forall>c1 h1 r1 c2 h2 r2.
        filter is_Sent (new_events st (snd (request self c st)))
          = [Sent c1 h1 r1, Sent c2 h2 r2]
        \<longrightarrow> fst (request self c st) = r2)"
  using request_events [of st self c]
  by (auto simp: payments_def sends_def)

theorem request_pays_once_sends_twice_witness:
  "filter is_Sent
     (new_events (start [Inr (challenge_402 scenario_header), Inr bare_402] [])
        (snd (request (scripted (Inr (Some ''P1''))) (get_call None)
                (start [Inr (challenge_402 scenario_header), Inr bare_402] []))))
     = [Sent (get_call None) [] (Inr (challenge_402 scenario_header)),
        Sent (get_call (Some (PyDict 1))) [[], [(''Authorization'', ''L402 M1:P1'')]]
          (Inr bare_402)]
   \<and> fst (request (scripted (Inr (Some ''P1''))) (get_call None)
            (start [Inr (challenge_402 scenario_header), Inr bare_402] [])) = Inr bare_402
   \<and> status_code bare_402 = 402"
proof -
  let ?st = "start [Inr (challenge_402 scenario_header), Inr bare_402] []"
  let ?S = "scripted (Inr (Some ''P1''))"
  have two: "filter is_Sent (new_events ?st (snd (request ?S (get_call None) ?st)))
     = [Sent (get_call None) [] (Inr (challenge_402 scenario_header)),
        Sent (get_call (Some (PyDict 1))) [[], [(''Authorization'', ''L402 M1:P1'')]]
          (Inr bare_402)]"
    by (simp add: session_defs example_defs scenario_header_def)
  have "fst (request ?S (get_call None) ?st) = Inr bare_402"
    using request_pays_once_sends_twice [of ?st ?S "get_call None"] two by blast
  with two show ?thesis by (simp add: bare_402_def)
qed


subsection \<open>Pass-through\<close>

text \<open>
  Claim C2. When the first answer of the transport has a status other than 402, the
  call returns that response unchanged, and all it did was that one send: the wallet
  is not invoked and the heap is untouched.
\<close>

theorem other_status_passes_through:
  assumes "transport self (world st) c (heap st) = (Inr resp, w)"
    and "status_code resp \<noteq> 402"
  shows "fst (request self c st) = Inr resp
         \<and> snd (request self c st)
             = st\<lparr>world := w, trace := trace st @ [Sent c (heap st) (Inr resp)]\<rparr>
         \<and> payments (new_events st (snd (request self c st))) = 0"
  using request_other_status [OF assms]
  by (simp add: new_events_def payments_def)

theorem other_status_passes_through_witness:
  "fst (request (scripted (Inr (Some ''P1''))) (get_call None) (start [Inr ok_200] []))
     = Inr ok_200
   \<and> payments (new_events (start [Inr ok_200] [])
        (snd (request (scripted (Inr (Some ''P1''))) (get_call None) (start [Inr ok_200] []))))
     = 0"
proof -
  let ?st = "start [Inr ok_200] []"
  let ?S = "scripted (Inr (Some ''P1''))"
  have 1: "transport ?S (world ?st) (get_call None) (heap ?st) = (Inr ok_200, [])"
    by (simp add: example_defs)
  have 2: "status_code ok_200 \<noteq> 402"
    by (simp add: ok_200_def)
  from other_status_passes_through [OF 1 2] show ?thesis by blast
qed

subsection \<open>A failed payment\<close>

text \<open>
  Claim C4. When the challenge parses and the wallet raises, returns \<^verbatim>\<open>None\<close> or
  returns the empty string, the call returns the original 402 response (a response,
  not an exception), and the transport was invoked exactly once: no retry is sent.
\<close>

theorem failed_payment_returns_402:
  assumes "transport self (world st) c (heap st) = (Inr resp, w0)"
    and "status_code resp = 402"
    and "headers resp ''WWW-Authenticate'' = Some h"
    and "str_in ''L402'' h \<or> str_in ''LSAT'' h"
    and "re_search ''macaroon'' h = Some M"
    and "re_search ''invoice'' h = Some I"
    and "wallet_pay_invoice self w0 I = (r, w)"
    and "(\<exists>e. r = Inl e) \<or> r = Inr None \<or> r = Inr (Some [])"
  shows "fst (request self c st) = Inr resp
         \<and> new_events st (snd (request self c st)) = [Sent c (heap st) (Inr resp), Paid I r]
         \<and> sends (new_events st (snd (request self c st))) = 1
         \<and> heap (snd (request self c st)) = heap st"
  using request_payment_failed [OF assms]
  by (simp add: new_events_def sends_def)

theorem failed_payment_returns_402_witness:
  "request (scripted (Inl (OtherException ''insufficient balance''))) (get_call None) paywalled
     = (Inr (challenge_402 scenario_header),
        \<lparr>world = [Inr ok_200], heap = [],
         trace = [Sent (get_call None) [] (Inr (challenge_402 scenario_header)),
                  Paid ''lnbc1'' (Inl (OtherException ''insufficient balance''))]\<rparr>)
   \<and> fst (request (scripted (Inr None)) (get_call None) paywalled)
       = Inr (challenge_402 scenario_header)
   \<and> sends (new_events paywalled (snd (request (scripted (Inr None)) (get_call None) paywalled)))
       = 1
   \<and> fst (request (scripted (Inr (Some []))) (get_call None) paywalled)
       = Inr (challenge_402 scenario_header)
   \<and> sends (new_events paywalled
        (snd (request (scripted (Inr (Some []))) (get_call None) paywalled))) = 1"
proof -
  let ?resp = "challenge_402 scenario_header"
  have 1: "transport (scripted r) (world paywalled) (get_call None) (heap paywalled)
             = (Inr ?resp, [Inr ok_200])"
    for r by (simp add: example_defs paywalled_def)
  have 2: "status_code ?resp = 402"
    by (simp add: challenge_402_def)
  have 3: "headers ?resp ''WWW-Authenticate'' = Some scenario_header"
    by (simp add: challenge_402_def)
  have 4: "str_in ''L402'' scenario_header \<or> str_in ''LSAT'' scenario_header"
    by (simp add: scenario_header_def example_defs)
  have 5: "re_search ''macaroon'' scenario_header = Some ''M1''"
    by (simp add: scenario_header_def example_defs)
  have 6: "re_search ''invoice'' scenario_header = Some ''lnbc1''"
    by (simp add: scenario_header_def example_defs)
  have 7: "wallet_pay_invoice (scripted r) [Inr ok_200] ''lnbc1'' = (r, [Inr ok_200])"
    for r by (simp add: scripted_def)
  have fails: "fst (request (scripted r) (get_call None) paywalled) = Inr ?resp
      \<and> new_events paywalled (snd (request (scripted r) (get_call None) paywalled))
          = [Sent (get_call None) (heap paywalled) (Inr ?resp), Paid ''lnbc1'' r]
      \<and> sends (new_events paywalled (snd (request (scripted r) (get_call None) paywalled))) = 1
      \<and> heap (snd (request (scripted r) (get_call None) paywalled)) = heap paywalled"
    if "(\<exists>e. r = Inl e) \<or> r = Inr None \<or> r = Inr (Some [])" for r
    using failed_payment_returns_402 [OF 1 2 3 4 5 6 7 that] .
  have raised: "request (scripted (Inl (OtherException ''insufficient balance'')))
        (get_call None) paywalled
     = (Inr ?resp,
        \<lparr>world = [Inr ok_200], heap = [],
         trace = [Sent (get_call None) [] (Inr ?resp),
                  Paid ''lnbc1'' (Inl (OtherException ''insufficient balance''))]\<rparr>)"
    by (simp add: session_defs example_defs scenario_header_def paywalled_def)
  from fails [of "Inr None"] fails [of "Inr (Some [])"] raised
  show ?thesis by blast
qed

subsection \<open>Transport failures\<close>

text \<open>
  Claim C7. When the first invocation of the transport raises, the call raises the same
  exception at once: nothing else was invoked, neither the transport a second time
  nor the wallet. And whenever a call to \<open>request\<close> raises, the exception is the
  outcome of the transport invocation the trace ends with: no other failure leaves the
  session as an exception.
\<close>

theorem transport_error_propagates:
  "(\<forall>e w. transport self (world st) c (heap st) = (Inl e, w) \<longrightarrow>
       request self c st = (Inl e, st\<lparr>world := w, trace := trace st @ [Sent c (heap st) (Inl e)]\<rparr>))
   \<and> (\<forall>e. fst (request self c st) = Inl e \<longrightarrow>
       (\<exists>c' h'. last (new_events st (snd (request self c st))) = Sent c' h' (Inl e)))"
proof (intro conjI allI impI)
  fix e w assume "transport self (world st) c (heap st) = (Inl e, w)"
  then show "request self c st
      = (Inl e, st\<lparr>world := w, trace := trace st @ [Sent c (heap st) (Inl e)]\<rparr>)"
    by (rule request_transport_error)
next
  fix e assume "fst (request self c st) = Inl e"
  with request_events [of st self c]
  show "\<exists>c' h'. last (new_events st (snd (request self c st))) = Sent c' h' (Inl e)"
    by auto
qed

theorem transport_error_propagates_witness:
  "request (scripted (Inr (Some ''P1''))) (get_call None)
       (start [Inl (RequestException ''timed out''), Inr ok_200] [])
     = (Inl (RequestException ''timed out''),
        \<lparr>world = [Inr ok_200], heap = [],
         trace = [Sent (get_call None) [] (Inl (RequestException ''timed out''))]\<rparr>)
   \<and> last (new_events (start [Inl (RequestException ''timed out''), Inr ok_200] [])
        (snd (request (scripted (Inr (Some ''P1''))) (get_call None)
               (start [Inl (RequestException ''timed out''), Inr ok_200] []))))
     = Sent (get_call None) [] (Inl (RequestException ''timed out''))"
proof -
  let ?st = "start [Inl (RequestException ''timed out''), Inr ok_200] []"
  let ?S = "scripted (Inr (Some ''P1''))"
  have 1: "transport ?S (world ?st) (get_call None) (heap ?st)
             = (Inl (RequestException ''timed out''), [Inr ok_200])"
    by (simp add: example_defs)
  from transport_error_propagates [of ?S ?st "get_call None"] 1
  have eq: "request ?S (get_call None) ?st
      = (Inl (RequestException ''timed out''),
         ?st\<lparr>world := [Inr ok_200],
             trace := trace ?st @ [Sent (get_call None) (heap ?st) (Inl (RequestException ''timed out''))]\<rparr>)"
    by blast
  then show ?thesis
    by (simp add: start_def new_events_def)
qed

subsection \<open>The credential\<close>

text \<open>
  Claim C5. After a successful payment the request that is sent again carries the
  header \<open>Authorization\<close> with the value \<open>L402 \<close>, the macaroon, a colon and the
  preimage. The prefix is the literal \<open>L402\<close> whichever of the two scheme tokens the
  challenge contained: the hypothesis on the scheme is a disjunction and the value does
  not depend on it.
\<close>

theorem retry_authorization_is_L402:
  assumes "transport self (world st) c (heap st) = (Inr resp, w0)"
    and "status_code resp = 402"
    and "headers resp ''WWW-Authenticate'' = Some h"
    and "str_in ''L402'' h \<or> str_in ''LSAT'' h"
    and "re_search ''macaroon'' h = Some M"
    and "re_search ''invoice'' h = Some I"
    and "wallet_pay_invoice self w0 I = (Inr (Some P), w)"
    and "P \<noteq> []"
  shows "\<exists>c2 h2 r2.
           new_events st (snd (request self c st))
             = [Sent c (heap st) (Inr resp), Paid I (Inr (Some P)), Sent c2 h2 r2]
         \<and> map_of (sent_headers c2 h2) ''Authorization'' = Some (''L402 '' @ M @ '':'' @ P)"
proof -
  from request_paid [OF assms] obtain b h2 r2 w2 where
    req: "request self c st =
            (r2, st\<lparr>world := w2, heap := h2,
                   trace := trace st @ [Sent c (heap st) (Inr resp), Paid I (Inr (Some P)),
                                        Sent (c\<lparr>headers_kw := Some (PyDict b)\<rparr>) h2 r2]\<rparr>)"
    and b: "b < length h2"
    and hb: "h2 ! b = AList.update ''Authorization'' (''L402 '' @ M @ '':'' @ P)
                        (sent_headers c (heap st))"
    by blast
  have "map_of (sent_headers (c\<lparr>headers_kw := Some (PyDict b)\<rparr>) h2) ''Authorization''
          = Some (''L402 '' @ M @ '':'' @ P)"
    using b hb by (simp add: sent_headers_def update_conv')
  then show ?thesis
    using req by (simp add: new_events_def)
qed

theorem retry_authorization_is_L402_witness:
  "\<exists>c2 h2 r2.
      new_events lsat_paywalled
        (snd (request (scripted (Inr (Some ''def''))) (get_call (Some (PyDict 0))) lsat_paywalled))
        = [Sent (get_call (Some (PyDict 0))) (heap lsat_paywalled) (Inr (challenge_402 lsat_header)),
           Paid ''lnbc1'' (Inr (Some ''def'')), Sent c2 h2 r2]
      \<and> map_of (sent_headers c2 h2) ''Authorization'' = Some ''L402 abc:def''"
proof -
  let ?S = "scripted (Inr (Some ''def''))"
  let ?resp = "challenge_402 lsat_header"
  have 1: "transport ?S (world lsat_paywalled) (get_call (Some (PyDict 0))) (heap lsat_paywalled)
             = (Inr ?resp, [Inr ok_200])"
    by (simp add: example_defs lsat_paywalled_def)
  have 2: "status_code ?resp = 402"
    by (simp add: challenge_402_def)
  have 3: "headers ?resp ''WWW-Authenticate'' = Some lsat_header"
    by (simp add: challenge_402_def)
  have 4: "str_in ''L402'' lsat_header \<or> str_in ''LSAT'' lsat_header"
    by (simp add: lsat_header_def example_defs)
  have 5: "re_search ''macaroon'' lsat_header = Some ''abc''"
    by (simp add: lsat_header_def example_defs)
  have 6: "re_search ''invoice'' lsat_header = Some ''lnbc1''"
    by (simp add: lsat_header_def example_defs)
  have 7: "wallet_pay_invoice ?S [Inr ok_200] ''lnbc1'' = (Inr (Some ''def''), [Inr ok_200])"
    by (simp add: scripted_def)
  have 8: "''def'' \<noteq> []"
    by simp
  from retry_authorization_is_L402 [OF 1 2 3 4 5 6 7 8] show ?thesis by simp
qed

subsection \<open>The retried request\<close>

text \<open>
  Claim C8. After a successful payment the call that is sent again is the original call
  with only its \<^verbatim>\<open>headers\<close> keyword rebound: same method, URL, positional arguments
  and other keywords. The dict it is rebound to is a new object (its address is not an
  address of the heap the call started with) holding the caller's headers with
  \<open>Authorization\<close> set to the credential, any earlier value overwritten. Every dict
  that existed before the call, the caller's among them, is unchanged: the old heap is a
  prefix of the new one.
\<close>

theorem retry_copies_headers:
  assumes "transport self (world st) c (heap st) = (Inr resp, w0)"
    and "status_code resp = 402"
    and "headers resp ''WWW-Authenticate'' = Some h"
    and "str_in ''L402'' h \<or> str_in ''LSAT'' h"
    and "re_search ''macaroon'' h = Some M"
    and "re_search ''invoice'' h = Some I"
    and "wallet_pay_invoice self w0 I = (Inr (Some P), w)"
    and "P \<noteq> []"
  shows "\<exists>b h2 r2.
           new_events st (snd (request self c st))
             = [Sent c (heap st) (Inr resp), Paid I (Inr (Some P)),
                Sent (c\<lparr>headers_kw := Some (PyDict b)\<rparr>) h2 r2]
         \<and> heap (snd (request self c st)) = h2
         \<and> prefix (heap st) h2 \<and> length (heap st) \<le> b \<and> b < length h2
         \<and> h2 ! b = AList.update ''Authorization'' (''L402 '' @ M @ '':'' @ P)
                      (sent_headers c (heap st))
         \<and> map_of (h2 ! b)
             = (map_of (sent_headers c (heap st)))(''Authorization'' \<mapsto> ''L402 '' @ M @ '':'' @ P)"
proof -
  from request_paid [OF assms] obtain b h2 r2 w2 where
    req: "request self c st =
            (r2, st\<lparr>world := w2, heap := h2,
                   trace := trace st @ [Sent c (heap st) (Inr resp), Paid I (Inr (Some P)),
                                        Sent (c\<lparr>headers_kw := Some (PyDict b)\<rparr>) h2 r2]\<rparr>)"
    and fr: "prefix (heap st) h2" "length (heap st) \<le> b" "b < length h2"
    and hb: "h2 ! b = AList.update ''Authorization'' (''L402 '' @ M @ '':'' @ P)
                        (sent_headers c (heap st))"
    by blast
  have "map_of (h2 ! b)
      = (map_of (sent_headers c (heap st)))(''Authorization'' \<mapsto> ''L402 '' @ M @ '':'' @ P)"
    by (simp add: hb update_conv')
  with req fr hb show ?thesis
    by (intro exI [of _ b] exI [of _ h2] exI [of _ r2]) (simp add: new_events_def)
qed

theorem retry_copies_headers_witness:
  "\<exists>b h2 r2.
      new_events lsat_paywalled
        (snd (request (scripted (Inr (Some ''def''))) (get_call (Some (PyDict 0))) lsat_paywalled))
        = [Sent (get_call (Some (PyDict 0))) (heap lsat_paywalled) (Inr (challenge_402 lsat_header)),
           Paid ''lnbc1'' (Inr (Some ''def'')),
           Sent (get_call (Some (PyDict b))) h2 r2]
      \<and> prefix [[(''Accept'', ''application/json''), (''Authorization'', ''Bearer old'')]] h2
      \<and> 1 \<le> b
      \<and> h2 ! b = [(''Accept'', ''application/json''), (''Authorization'', ''L402 abc:def'')]"
proof -
  let ?S = "scripted (Inr (Some ''def''))"
  let ?resp = "challenge_402 lsat_header"
  have 1: "transport ?S (world lsat_paywalled) (get_call (Some (PyDict 0))) (heap lsat_paywalled)
             = (Inr ?resp, [Inr ok_200])"
    by (simp add: example_defs lsat_paywalled_def)
  have 2: "status_code ?resp = 402"
    by (simp add: challenge_402_def)
  have 3: "headers ?resp ''WWW-Authenticate'' = Some lsat_header"
    by (simp add: challenge_402_def)
  have 4: "str_in ''L402'' lsat_header \<or> str_in ''LSAT'' lsat_header"
    by (simp add: lsat_header_def example_defs)
  have 5: "re_search ''macaroon'' lsat_header = Some ''abc''"
    by (simp add: lsat_header_def example_defs)
  have 6: "re_search ''invoice'' lsat_header = Some ''lnbc1''"
    by (simp add: lsat_header_def example_defs)
  have 7: "wallet_pay_invoice ?S [Inr ok_200] ''lnbc1'' = (Inr (Some ''def''), [Inr ok_200])"
    by (simp add: scripted_def)
  have 8: "''def'' \<noteq> []"
    by simp
  have hs: "heap lsat_paywalled
      = [[(''Accept'', ''application/json''), (''Authorization'', ''Bearer old'')]]"
    by (simp add: lsat_paywalled_def)
  from retry_copies_headers [OF 1 2 3 4 5 6 7 8] obtain b h2 r2 where
    "new_events lsat_paywalled (snd (request ?S (get_call (Some (PyDict 0))) lsat_paywalled))
       = [Sent (get_call (Some (PyDict 0))) (heap lsat_paywalled) (Inr ?resp),
          Paid ''lnbc1'' (Inr (Some ''def'')),
          Sent ((get_call (Some (PyDict 0)))\<lparr>headers_kw := Some (PyDict b)\<rparr>) h2 r2]"
    "prefix (heap lsat_paywalled) h2" "length (heap lsat_paywalled) \<le> b"
    "h2 ! b = AList.update ''Authorization'' (''L402 '' @ ''abc'' @ '':'' @ ''def'')
                (sent_headers (get_call (Some (PyDict 0))) (heap lsat_paywalled))"
    by blast
  then show ?thesis
    by (intro exI [of _ b] exI [of _ h2] exI [of _ r2]) (simp add: hs sent_headers_def get_call_def)
qed

subsection \<open>No headers from the caller\<close>

text \<open>
  Claim C10. When the caller passed no \<^verbatim>\<open>headers\<close> keyword, or passed
  \<^verbatim>\<open>headers=None\<close>, a successful payment is followed by the retry all the same: the
  transport is invoked with the call whose \<^verbatim>\<open>headers\<close> keyword is a dict created
  during this call, holding the \<open>Authorization\<close> entry and nothing else, and what that
  invocation yields is what the call returns. The session code itself raises nothing on
  the way.
\<close>

theorem retry_without_caller_headers:
  assumes "transport self (world st) c (heap st) = (Inr resp, w0)"
    and "status_code resp = 402"
    and "headers resp ''WWW-Authenticate'' = Some h"
    and "str_in ''L402'' h \<or> str_in ''LSAT'' h"
    and "re_search ''macaroon'' h = Some M"
    and "re_search ''invoice'' h = Some I"
    and "wallet_pay_invoice self w0 I = (Inr (Some P), w)"
    and "P \<noteq> []"
    and "headers_kw c = None \<or> headers_kw c = Some PyNone"
  shows "\<exists>b h2 r2 w2.
           transport self w (c\<lparr>headers_kw := Some (PyDict b)\<rparr>) h2 = (r2, w2)
         \<and> fst (request self c st) = r2
         \<and> new_events st (snd (request self c st))
             = [Sent c (heap st) (Inr resp), Paid I (Inr (Some P)),
                Sent (c\<lparr>headers_kw := Some (PyDict b)\<rparr>) h2 r2]
         \<and> length (heap st) \<le> b \<and> b < length h2
         \<and> h2 ! b = [(''Authorization'', ''L402 '' @ M @ '':'' @ P)]"
proof -
  from request_paid [OF assms(1-8)] obtain b h2 r2 w2 where
    req: "request self c st =
            (r2, st\<lparr>world := w2, heap := h2,
                   trace := trace st @ [Sent c (heap st) (Inr resp), Paid I (Inr (Some P)),
                                        Sent (c\<lparr>headers_kw := Some (PyDict b)\<rparr>) h2 r2]\<rparr>)"
    and tr: "transport self w (c\<lparr>headers_kw := Some (PyDict b)\<rparr>) h2 = (r2, w2)"
    and fr: "length (heap st) \<le> b" "b < length h2"
    and hb: "h2 ! b = AList.update ''Authorization'' (''L402 '' @ M @ '':'' @ P)
                        (sent_headers c (heap st))"
    by blast
  from assms(9) have "sent_headers c (heap st) = []"
    by (auto simp: sent_headers_def)
  with hb have "h2 ! b = [(''Authorization'', ''L402 '' @ M @ '':'' @ P)]"
    by simp
  with req tr fr show ?thesis
    by (intro exI [of _ b] exI [of _ h2] exI [of _ r2] exI [of _ w2]) (simp add: new_events_def)
qed

theorem retry_without_caller_headers_witness:
  "(\<exists>b h2. last (new_events paywalled
               (snd (request (scripted (Inr (Some ''P1''))) (get_call None) paywalled)))
             = Sent (get_call (Some (PyDict b))) h2 (Inr ok_200)
          \<and> h2 ! b = [(''Authorization'', ''L402 M1:P1'')])
   \<and> fst (request (scripted (Inr (Some ''P1''))) (get_call None) paywalled) = Inr ok_200
   \<and> (\<exists>b h2. last (new_events paywalled
               (snd (request (scripted (Inr (Some ''P1''))) (get_call (Some PyNone)) paywalled)))
             = Sent (get_call (Some (PyDict b))) h2 (Inr ok_200)
          \<and> h2 ! b = [(''Authorization'', ''L402 M1:P1'')])
   \<and> fst (request (scripted (Inr (Some ''P1''))) (get_call (Some PyNone)) paywalled) = Inr ok_200"
proof -
  let ?S = "scripted (Inr (Some ''P1''))"
  let ?resp = "challenge_402 scenario_header"
  have 1: "transport ?S (world paywalled) (get_call k) (heap paywalled) = (Inr ?resp, [Inr ok_200])"
    for k by (simp add: example_defs paywalled_def)
  have 2: "status_code ?resp = 402"
    by (simp add: challenge_402_def)
  have 3: "headers ?resp ''WWW-Authenticate'' = Some scenario_header"
    by (simp add: challenge_402_def)
  have 4: "str_in ''L402'' scenario_header \<or> str_in ''LSAT'' scenario_header"
    by (simp add: scenario_header_def example_defs)
  have 5: "re_search ''macaroon'' scenario_header = Some ''M1''"
    by (simp add: scenario_header_def example_defs)
  have 6: "re_search ''invoice'' scenario_header = Some ''lnbc1''"
    by (simp add: scenario_header_def example_defs)
  have 7: "wallet_pay_invoice ?S [Inr ok_200] ''lnbc1'' = (Inr (Some ''P1''), [Inr ok_200])"
    by (simp add: scripted_def)
  have 8: "''P1'' \<noteq> []"
    by simp
  have gc: "(get_call k)\<lparr>headers_kw := Some (PyDict b)\<rparr> = get_call (Some (PyDict b))"
    for k b by (simp add: get_call_def)
  have tr2: "transport ?S [Inr ok_200] c2 h2 = (r2, w2) \<Longrightarrow> r2 = Inr ok_200"
    for c2 h2 r2 w2 by (simp add: scripted_def)
  have goal: "(\<exists>b h2. last (new_events paywalled (snd (request ?S (get_call k) paywalled)))
             = Sent (get_call (Some (PyDict b))) h2 (Inr ok_200)
          \<and> h2 ! b = [(''Authorization'', ''L402 M1:P1'')])
      \<and> fst (request ?S (get_call k) paywalled) = Inr ok_200"
    if k: "headers_kw (get_call k) = None \<or> headers_kw (get_call k) = Some PyNone" for k
  proof -
    from retry_without_caller_headers [OF 1 2 3 4 5 6 7 8 k] obtain b h2 r2 w2 where
      a: "transport ?S [Inr ok_200] ((get_call k)\<lparr>headers_kw := Some (PyDict b)\<rparr>) h2 = (r2, w2)"
      and b: "fst (request ?S (get_call k) paywalled) = r2"
      and c: "new_events paywalled (snd (request ?S (get_call k) paywalled))
             = [Sent (get_call k) (heap paywalled) (Inr ?resp), Paid ''lnbc1'' (Inr (Some ''P1'')),
                Sent ((get_call k)\<lparr>headers_kw := Some (PyDict b)\<rparr>) h2 r2]"
      and d: "h2 ! b = [(''Authorization'', ''L402 '' @ ''M1'' @ '':'' @ ''P1'')]"
      by blast
    from tr2 [OF a] have r2: "r2 = Inr ok_200" .
    show ?thesis
      using b c d r2
      by (intro conjI exI [of _ b] exI [of _ h2]) (simp_all add: gc)
  qed
  have "headers_kw (get_call None) = None \<or> headers_kw (get_call None) = Some PyNone"
    "headers_kw (get_call (Some PyNone)) = None \<or> headers_kw (get_call (Some PyNone)) = Some PyNone"
    by (simp_all add: get_call_def)
  from goal [OF this(1)] goal [OF this(2)] show ?thesis by blast
qed

subsection \<open>Unusable challenges\<close>

lemma match_at_Nil: "match_at key [] = None"
  by (simp add: match_at_def)

lemma quoted_group_dquote: "quoted_group (dquote # s) = None"
  by (simp add: quoted_group_def)

lemma no_quoted_value_match_at:
  assumes "prefix (key @ ''='') s \<longrightarrow>
             (\<not> prefix [dquote] (drop (length key + 1) s)
              \<or> prefix [dquote, dquote] (drop (length key + 1) s))"
  shows "match_at key s = None"
proof (cases "prefix (key @ ''='' @ [dquote]) s")
  case False
  then show ?thesis by (simp add: match_at_def)
next
  case True
  then obtain t where s: "s = key @ ''='' @ [dquote] @ t"
    by (auto simp: prefix_def)
  then have d1: "drop (length key + 1) s = dquote # t"
    by simp
  from s have "prefix (key @ ''='') s"
    by simp
  with assms d1 have "prefix [dquote, dquote] (dquote # t)"
    by simp
  then obtain t' where t: "t = dquote # t'"
    by (auto simp: prefix_def)
  from s have "drop (length key + 2) s = t"
    by simp
  with t show ?thesis
    by (simp add: match_at_def quoted_group_dquote)
qed

lemma no_quoted_value_re_search:
  "no_quoted_value key h \<Longrightarrow> re_search key h = None"
proof (induction h)
  case Nil
  show ?case by (simp add: match_at_Nil)
next
  case (Cons c cs)
  from Cons.prems have "match_at key (c # cs) = None"
    by (intro no_quoted_value_match_at) simp
  moreover from Cons have "re_search key cs = None"
    by simp
  ultimately show ?case by simp
qed

text \<open>
  Claim C3, as stated, fails on the code. The session recognises the scheme and the two
  keys as text anywhere in the header, not as tokens. The header
  \<^verbatim>\<open>L402 xmacaroon="X1", invoice="lnbc1"\<close> has no parameter named \<open>macaroon\<close>,
  and the header \<^verbatim>\<open>Basic realm="LSAT", macaroon="M1", invoice="lnbc1"\<close> has the
  scheme token \<open>Basic\<close>; on either the session does not return the 402 response: it
  pays the invoice and sends the request again.
\<close>

theorem tokenless_challenge_is_paid:
  "map_of [(''xmacaroon'', ''X1''), (''invoice'', ''lnbc1'')] ''macaroon'' = None
   \<and> request (scripted (Inr (Some ''P1''))) (get_call None)
        (start [Inr (challenge_402 xmacaroon_header), Inr ok_200] [])
      = (Inr ok_200,
         \<lparr>world = [], heap = [[], [(''Authorization'', ''L402 X1:P1'')]],
          trace = [Sent (get_call None) [] (Inr (challenge_402 xmacaroon_header)),
                   Paid ''lnbc1'' (Inr (Some ''P1'')),
                   Sent (get_call (Some (PyDict 1))) [[], [(''Authorization'', ''L402 X1:P1'')]]
                     (Inr ok_200)]\<rparr>)
   \<and> scheme_token basic_header = ''Basic''
   \<and> request (scripted (Inr (Some ''P1''))) (get_call None)
        (start [Inr (challenge_402 basic_header), Inr ok_200] [])
      = (Inr ok_200,
         \<lparr>world = [], heap = [[], [(''Authorization'', ''L402 M1:P1'')]],
          trace = [Sent (get_call None) [] (Inr (challenge_402 basic_header)),
                   Paid ''lnbc1'' (Inr (Some ''P1'')),
                   Sent (get_call (Some (PyDict 1))) [[], [(''Authorization'', ''L402 M1:P1'')]]
                     (Inr ok_200)]\<rparr>)"
proof -
  have x: "xmacaroon_header = ''L402 xmacaroon='' @ quoted ''X1'' @ '', invoice='' @ quoted ''lnbc1''"
    by (simp add: xmacaroon_header_def challenge_header_def)
  have b: "basic_header = ''Basic realm='' @ quoted ''LSAT'' @ '', macaroon='' @ quoted ''M1''
      @ '', invoice='' @ quoted ''lnbc1''"
    by (simp add: basic_header_def challenge_header_def)
  have xs: "xmacaroon_header \<noteq> []" "str_in ''L402'' xmacaroon_header"
    "re_search ''macaroon'' xmacaroon_header = Some ''X1''"
    "re_search ''invoice'' xmacaroon_header = Some ''lnbc1''"
    unfolding x by (simp_all add: example_defs)
  have bs: "basic_header \<noteq> []" "str_in ''LSAT'' basic_header"
    "re_search ''macaroon'' basic_header = Some ''M1''"
    "re_search ''invoice'' basic_header = Some ''lnbc1''"
    "scheme_token basic_header = ''Basic''"
    unfolding b by (simp_all add: example_defs scheme_token_def)
  have paid: "request (scripted (Inr (Some ''P1''))) (get_call None)
        (start [Inr (challenge_402 h), Inr ok_200] [])
      = (Inr ok_200,
         \<lparr>world = [], heap = [[], [(''Authorization'', ''L402 '' @ M @ '':P1'')]],
          trace = [Sent (get_call None) [] (Inr (challenge_402 h)),
                   Paid I (Inr (Some ''P1'')),
                   Sent (get_call (Some (PyDict 1))) [[], [(''Authorization'', ''L402 '' @ M @ '':P1'')]]
                     (Inr ok_200)]\<rparr>)"
    if "h \<noteq> []" "str_in ''L402'' h \<or> str_in ''LSAT'' h"
      "re_search ''macaroon'' h = Some M" "re_search ''invoice'' h = Some I" for h M I
    using that
    by (auto simp: request_def handle_payment_flow_def super_request_def pay_invoice_def
        new_dict_def setitem_def deref_def Let_def scripted_def challenge_402_def ok_200_def
        get_call_def start_def)
  from paid [OF xs(1) disjI1 [OF xs(2)] xs(3,4)] paid [OF bs(1) disjI2 [OF bs(2)] bs(3,4)] bs(5)
  show ?thesis by simp
qed

text \<open>
  Claim C3, amended. When the first answer is a 402 whose \<open>WWW-Authenticate\<close> header
  is absent, or contains the text \<open>L402\<close> nowhere and the text \<open>LSAT\<close> nowhere, or in
  which, for \<open>macaroon\<close> or for \<open>invoice\<close>, the text \<open>key=\<close> occurs nowhere or is
  at each of its occurrences followed by something other than a double quote or by an
  empty quoted value, the call returns that 402 response unchanged. It returns a
  response, not an exception, and the one send is all that happened: the wallet is not
  invoked.
\<close>

theorem unusable_challenge_returns_402:
  assumes "transport self (world st) c (heap st) = (Inr resp, w)"
    and "status_code resp = 402"
    and "case headers resp ''WWW-Authenticate'' of
           None \<Rightarrow> True
         | Some h \<Rightarrow> (\<not> str_in ''L402'' h \<and> \<not> str_in ''LSAT'' h)
                     \<or> no_quoted_value ''macaroon'' h \<or> no_quoted_value ''invoice'' h"
  shows "fst (request self c st) = Inr resp
         \<and> snd (request self c st)
             = st\<lparr>world := w, trace := trace st @ [Sent c (heap st) (Inr resp)]\<rparr>
         \<and> payments (new_events st (snd (request self c st))) = 0"
proof -
  from assms(3) have "case headers resp ''WWW-Authenticate'' of
           None \<Rightarrow> True
         | Some h \<Rightarrow> (\<not> str_in ''L402'' h \<and> \<not> str_in ''LSAT'' h)
                     \<or> re_search ''macaroon'' h = None \<or> re_search ''invoice'' h = None"
    by (auto split: option.splits dest: no_quoted_value_re_search)
  from request_no_challenge [OF assms(1,2) this] show ?thesis
    by (simp add: new_events_def payments_def)
qed

theorem unusable_challenge_returns_402_witness:
  "fst (request (scripted (Inr (Some ''P1''))) (get_call None) (start [Inr bare_402] []))
     = Inr bare_402
   \<and> fst (request (scripted (Inr (Some ''P1''))) (get_call None)
           (start [Inr (challenge_402 ''Bearer realm=api'')] []))
     = Inr (challenge_402 ''Bearer realm=api'')
   \<and> fst (request (scripted (Inr (Some ''P1''))) (get_call None)
           (start [Inr (challenge_402 (''L402 invoice='' @ quoted ''lnbc1''))] []))
     = Inr (challenge_402 (''L402 invoice='' @ quoted ''lnbc1''))
   \<and> fst (request (scripted (Inr (Some ''P1''))) (get_call None)
           (start [Inr (challenge_402 (''L402 macaroon='' @ quoted ''M1'' @ '', invoice=lnbc1''))] []))
     = Inr (challenge_402 (''L402 macaroon='' @ quoted ''M1'' @ '', invoice=lnbc1''))
   \<and> payments (new_events
        (start [Inr (challenge_402 (''L402 macaroon='' @ quoted ''M1'' @ '', invoice=lnbc1''))] [])
        (snd (request (scripted (Inr (Some ''P1''))) (get_call None)
           (start [Inr (challenge_402 (''L402 macaroon='' @ quoted ''M1'' @ '', invoice=lnbc1''))] []))))
     = 0
   \<and> fst (request (scripted (Inr (Some ''P1''))) (get_call None)
           (start [Inr (challenge_402 (''L402 macaroon='' @ quoted [] @ '', invoice='' @ quoted ''lnbc1''))] []))
     = Inr (challenge_402 (''L402 macaroon='' @ quoted [] @ '', invoice='' @ quoted ''lnbc1''))"
proof -
  let ?S = "scripted (Inr (Some ''P1''))"
  have 1: "transport ?S (world (start [Inr r] [])) (get_call None) (heap (start [Inr r] []))
             = (Inr r, [])"
    for r by (simp add: scripted_def start_def)
  have bare: "status_code bare_402 = 402"
    "case headers bare_402 ''WWW-Authenticate'' of
           None \<Rightarrow> True
         | Some h \<Rightarrow> (\<not> str_in ''L402'' h \<and> \<not> str_in ''LSAT'' h)
                     \<or> no_quoted_value ''macaroon'' h \<or> no_quoted_value ''invoice'' h"
    by (simp_all add: bare_402_def)
  have 2: "status_code (challenge_402 h) = 402"
    for h by (simp add: challenge_402_def)
  have 3: "case headers (challenge_402 h) ''WWW-Authenticate'' of
           None \<Rightarrow> True
         | Some h \<Rightarrow> (\<not> str_in ''L402'' h \<and> \<not> str_in ''LSAT'' h)
                     \<or> no_quoted_value ''macaroon'' h \<or> no_quoted_value ''invoice'' h"
    if "(\<not> str_in ''L402'' h \<and> \<not> str_in ''LSAT'' h)
          \<or> no_quoted_value ''macaroon'' h \<or> no_quoted_value ''invoice'' h"
    for h using that by (simp add: challenge_402_def)
  have a: "\<not> str_in ''L402'' ''Bearer realm=api'' \<and> \<not> str_in ''LSAT'' ''Bearer realm=api''"
    by simp
  have b: "no_quoted_value ''macaroon'' (''L402 invoice='' @ quoted ''lnbc1'')"
    by (simp add: quoted_def dquote_def)
  have c: "no_quoted_value ''invoice'' (''L402 macaroon='' @ quoted ''M1'' @ '', invoice=lnbc1'')"
    by (simp add: quoted_def dquote_def)
  have d: "no_quoted_value ''macaroon''
             (''L402 macaroon='' @ quoted [] @ '', invoice='' @ quoted ''lnbc1'')"
    by (simp add: quoted_def dquote_def)
  note u = unusable_challenge_returns_402
  from u [OF 1 bare] u [OF 1 2 3, OF disjI1, OF a] u [OF 1 2 3, OF disjI2, OF disjI1, OF b]
    u [OF 1 2 3, OF disjI2, OF disjI2, OF c] u [OF 1 2 3, OF disjI2, OF disjI1, OF d]
  show ?thesis
    by blast
qed

subsection \<open>Substring matching\<close>

text \<open>
  Claim C9. The scheme and the two keys are recognised as substrings. In the header
  \<^verbatim>\<open>Basic realm="L402", notmacaroon="M9", notinvoice="lnbc9"\<close> the scheme token is
  \<open>Basic\<close>, the text \<open>L402\<close> occurs only as the value of \<open>realm\<close>, and no parameter
  has the key \<open>macaroon\<close> or \<open>invoice\<close>. The session all the same extracts \<open>M9\<close>
  and \<open>lnbc9\<close>, pays \<open>lnbc9\<close> and sends the request again with the credential
  \<open>L402 M9:P9\<close>.
\<close>

theorem substring_matching_pays:
  "str_in ''L402'' suffix_key_header
   \<and> re_search ''macaroon'' suffix_key_header = Some ''M9''
   \<and> re_search ''invoice'' suffix_key_header = Some ''lnbc9''
   \<and> request (scripted (Inr (Some ''P9''))) (get_call None)
        (start [Inr (challenge_402 suffix_key_header), Inr ok_200] [])
      = (Inr ok_200,
         \<lparr>world = [], heap = [[], [(''Authorization'', ''L402 M9:P9'')]],
          trace = [Sent (get_call None) [] (Inr (challenge_402 suffix_key_header)),
                   Paid ''lnbc9'' (Inr (Some ''P9'')),
                   Sent (get_call (Some (PyDict 1))) [[], [(''Authorization'', ''L402 M9:P9'')]]
                     (Inr ok_200)]\<rparr>)"
proof -
  have h: "suffix_key_header
      = ''Basic realm='' @ quoted ''L402'' @ '', notmacaroon='' @ quoted ''M9''
          @ '', notinvoice='' @ quoted ''lnbc9''"
    by (simp add: suffix_key_header_def challenge_header_def)
  have 1: "str_in ''L402'' suffix_key_header"
    unfolding h by (simp add: quoted_def dquote_def)
  have 2: "re_search ''macaroon'' suffix_key_header = Some ''M9''"
    unfolding h by (simp add: example_defs)
  have 3: "re_search ''invoice'' suffix_key_header = Some ''lnbc9''"
    unfolding h by (simp add: example_defs)
  have ne: "suffix_key_header \<noteq> []"
    unfolding h by simp
  have "request (scripted (Inr (Some ''P9''))) (get_call None)
        (start [Inr (challenge_402 suffix_key_header), Inr ok_200] [])
      = (Inr ok_200,
         \<lparr>world = [], heap = [[], [(''Authorization'', ''L402 M9:P9'')]],
          trace = [Sent (get_call None) [] (Inr (challenge_402 suffix_key_header)),
                   Paid ''lnbc9'' (Inr (Some ''P9'')),
                   Sent (get_call (Some (PyDict 1))) [[], [(''Authorization'', ''L402 M9:P9'')]]
                     (Inr ok_200)]\<rparr>)"
    using 1 2 3 ne
    by (simp add: request_def handle_payment_flow_def super_request_def pay_invoice_def
        new_dict_def setitem_def deref_def Let_def scripted_def challenge_402_def ok_200_def
        get_call_def start_def)
  with 1 2 3 show ?thesis by simp
qed

subsection \<open>Order of the parameters, other parameters\<close>

lemma re_search_no_dquote:
  "dquote \<notin> set s \<Longrightarrow> re_search key s = None"
proof (induction s)
  case Nil
  show ?case by (simp add: match_at_def)
next
  case (Cons c cs)
  have "\<not> prefix (key @ ''='' @ [dquote]) (c # cs)"
  proof
    assume "prefix (key @ ''='' @ [dquote]) (c # cs)"
    then have "set (key @ ''='' @ [dquote]) \<subseteq> set (c # cs)"
      by (rule set_mono_prefix)
    with Cons.prems show False by auto
  qed
  then have "match_at key (c # cs) = None"
    by (simp add: match_at_def)
  with Cons show ?case by simp
qed

lemma takeWhile_to_dquote:
  "dquote \<notin> set v \<Longrightarrow> takeWhile (\<lambda>c. c \<noteq> dquote) (v @ dquote # t) = v"
  by (induction v) auto

lemma first_dquote_unique:
  assumes "x @ dquote # s = y @ dquote # t" and "dquote \<notin> set x" and "dquote \<notin> set y"
  shows "x = y \<and> s = t"
proof -
  have "takeWhile (\<lambda>c. c \<noteq> dquote) (x @ dquote # s) = x"
    using assms(2) by (rule takeWhile_to_dquote)
  moreover have "takeWhile (\<lambda>c. c \<noteq> dquote) (y @ dquote # t) = y"
    using assms(3) by (rule takeWhile_to_dquote)
  ultimately have "x = y" using assms(1) by simp
  with assms(1) show ?thesis by simp
qed

lemma match_at_before_dquote:
  assumes "dquote \<notin> set a" and "dquote \<notin> set key"
  shows "match_at key (a @ dquote # rest) = (if a = key @ ''='' then quoted_group rest else None)"
proof (cases "a = key @ ''=''")
  case True
  then show ?thesis by (simp add: match_at_def)
next
  case False
  have "\<not> prefix (key @ ''='' @ [dquote]) (a @ dquote # rest)"
  proof
    assume "prefix (key @ ''='' @ [dquote]) (a @ dquote # rest)"
    then obtain t where "a @ dquote # rest = (key @ ''='') @ dquote # t"
      by (auto simp: prefix_def)
    moreover have "dquote \<notin> set (key @ ''='')"
      using assms(2) by (simp add: dquote_def)
    ultimately have "a = key @ ''=''"
      using assms(1) first_dquote_unique by blast
    with False show False by simp
  qed
  with False show ?thesis by (simp add: match_at_def)
qed

text \<open>
  The search, one double quote at a time: a match can only end at a double quote, and
  it does so where the text since the double quote before ends in \<open>key=\<close>.
\<close>

lemma re_search_at_dquote:
  assumes "dquote \<notin> set a" and "dquote \<notin> set key"
  shows "re_search key (a @ dquote # rest) =
           (if suffix (key @ ''='') a
            then (case quoted_group rest of Some v \<Rightarrow> Some v | None \<Rightarrow> re_search key rest)
            else re_search key rest)"
  using assms(1)
proof (induction a)
  case Nil
  have "match_at key (dquote # rest) = None"
    using match_at_before_dquote [of "[]" key rest] assms(2) by simp
  then show ?case by simp
next
  case (Cons c a)
  then have IH: "re_search key (a @ dquote # rest) =
           (if suffix (key @ ''='') a
            then (case quoted_group rest of Some v \<Rightarrow> Some v | None \<Rightarrow> re_search key rest)
            else re_search key rest)"
    by simp
  have m: "match_at key ((c # a) @ dquote # rest)
             = (if c # a = key @ ''='' then quoted_group rest else None)"
    using Cons.prems assms(2) by (rule match_at_before_dquote)
  show ?case
  proof (cases "c # a = key @ ''=''")
    case True
    have "\<not> suffix (key @ ''='') a"
    proof
      assume "suffix (key @ ''='') a"
      then have "length (key @ ''='') \<le> length a" by (rule suffix_length_le)
      with True [symmetric] show False by simp
    qed
    then have r: "re_search key (a @ dquote # rest) = re_search key rest"
      using IH by simp
    have sf: "suffix (key @ ''='') (c # a)"
      unfolding True by simp
    have "re_search key ((c # a) @ dquote # rest)
        = (case match_at key ((c # a) @ dquote # rest) of
             Some v \<Rightarrow> Some v | None \<Rightarrow> re_search key (a @ dquote # rest))"
      by simp
    also have "\<dots> = (case quoted_group rest of Some v \<Rightarrow> Some v | None \<Rightarrow> re_search key rest)"
      unfolding m r using True by simp
    finally show ?thesis
      using sf by simp
  next
    case False
    then have sf: "suffix (key @ ''='') (c # a) \<longleftrightarrow> suffix (key @ ''='') a"
      by (auto simp: suffix_Cons)
    have "re_search key ((c # a) @ dquote # rest)
        = (case match_at key ((c # a) @ dquote # rest) of
             Some v \<Rightarrow> Some v | None \<Rightarrow> re_search key (a @ dquote # rest))"
      by simp
    also have "\<dots> = re_search key (a @ dquote # rest)"
      unfolding m using False by simp
    finally show ?thesis
      using IH sf by simp
  qed
qed

lemma quoted_group_value:
  "dquote \<notin> set v \<Longrightarrow> quoted_group (v @ dquote # t) = (if v = [] then None else Some v)"
  by (simp add: quoted_group_def takeWhile_to_dquote)

lemma suffix_key_after_space:
  assumes "CHR '' '' \<notin> set key" and "k \<noteq> key \<longrightarrow> \<not> suffix key k"
  shows "suffix key (a @ '' '' @ k) \<longleftrightarrow> k = key"
proof
  assume "k = key"
  then show "suffix key (a @ '' '' @ k)" by (simp add: suffix_def)
next
  assume s: "suffix key (a @ '' '' @ k)"
  show "k = key"
  proof (rule ccontr)
    assume ne: "k \<noteq> key"
    with assms(2) have "\<not> suffix key k" by simp
    moreover from s have "suffix key ((a @ '' '') @ k)"
      by simp
    ultimately have "\<exists>xs. key = xs @ k \<and> suffix xs (a @ '' '')"
      unfolding suffix_append by blast
    then obtain xs where xs: "key = xs @ k" "suffix xs (a @ '' '')" by blast
    with ne have "xs \<noteq> []" by auto
    with xs(2) have "CHR '' '' \<in> set xs" by auto
    with xs(1) assms(1) show False by simp
  qed
qed

lemma re_search_one_param:
  assumes "dquote \<notin> set key" and "CHR '' '' \<notin> set key"
    and "dquote \<notin> set a" and "plain_for key (k, v)"
  shows "re_search key (a @ '' '' @ k @ ''='' @ quoted v @ rest) =
           (if k = key \<and> v \<noteq> [] then Some v else re_search key rest)"
proof -
  from assms(4) have k: "dquote \<notin> set k" and v: "dquote \<notin> set v"
    and vs: "\<not> suffix (key @ ''='') v" and ks: "k \<noteq> key \<longrightarrow> \<not> suffix key k"
    by (simp_all add: plain_for_def)
  have a1: "dquote \<notin> set (a @ '' '' @ k @ ''='')"
    using assms(3) k by (simp add: dquote_def)
  have sfx: "suffix (key @ ''='') (a @ '' '' @ k @ ''='') \<longleftrightarrow> k = key"
    using suffix_key_after_space [OF assms(2) ks, of a]
    by (metis append.assoc snoc_suffix_snoc)
  have after: "re_search key (v @ dquote # rest) = re_search key rest"
    using re_search_at_dquote [OF v assms(1), of rest] vs by simp
  have "re_search key (a @ '' '' @ k @ ''='' @ quoted v @ rest)
      = re_search key ((a @ '' '' @ k @ ''='') @ dquote # (v @ dquote # rest))"
    by (simp add: quoted_def)
  also have "\<dots> = (if k = key
       then (case quoted_group (v @ dquote # rest) of
               Some x \<Rightarrow> Some x | None \<Rightarrow> re_search key (v @ dquote # rest))
       else re_search key (v @ dquote # rest))"
    unfolding re_search_at_dquote [OF a1 assms(1)] sfx ..
  also have "\<dots> = (if k = key \<and> v \<noteq> [] then Some v else re_search key rest)"
    unfolding quoted_group_value [OF v] after by simp
  finally show ?thesis .
qed

lemma re_search_render_params:
  assumes "dquote \<notin> set key" and "CHR '' '' \<notin> set key"
  shows "dquote \<notin> set a \<Longrightarrow> \<forall>p \<in> set ps. plain_for key p \<Longrightarrow>
         re_search key (a @ '' '' @ render_params ps) = map_of (filter (\<lambda>p. snd p \<noteq> []) ps) key"
proof (induction ps arbitrary: a rule: render_params.induct)
  case 1
  have "dquote \<notin> set (a @ '' '')"
    using "1.prems"(1) by (simp add: dquote_def)
  then have "re_search key (a @ '' '') = None"
    by (rule re_search_no_dquote)
  then show ?case by simp
next
  case (2 k v)
  then have "plain_for key (k, v)" by simp
  from re_search_one_param [OF assms "2.prems"(1) this, of "[]"]
  show ?case by (simp add: match_at_def)
next
  case (3 k v p ps)
  then have pl: "plain_for key (k, v)" and rest: "\<forall>q \<in> set (p # ps). plain_for key q"
    by simp_all
  have c: "dquote \<notin> set '',''"
    by (simp add: dquote_def)
  have "re_search key (a @ '' '' @ render_params ((k, v) # p # ps))
      = re_search key (a @ '' '' @ k @ ''='' @ quoted v @ ('','' @ '' '' @ render_params (p # ps)))"
    by simp
  also have "\<dots> = (if k = key \<and> v \<noteq> [] then Some v
                     else re_search key ('','' @ '' '' @ render_params (p # ps)))"
    by (rule re_search_one_param [OF assms "3.prems"(1) pl])
  also have "re_search key ('','' @ '' '' @ render_params (p # ps))
      = map_of (filter (\<lambda>p. snd p \<noteq> []) (p # ps)) key"
    by (rule "3.IH" [OF c rest])
  finally show ?case by auto
qed

lemma re_search_challenge_header:
  assumes "dquote \<notin> set key" and "CHR '' '' \<notin> set key" and "dquote \<notin> set scheme"
    and "\<forall>p \<in> set ps. plain_for key p"
    and "distinct (map fst ps)" and "(key, v) \<in> set ps" and "v \<noteq> []"
  shows "re_search key (challenge_header scheme ps) = Some v"
proof -
  have "distinct (map fst (filter (\<lambda>p. snd p \<noteq> []) ps))"
    using assms(5) by (rule distinct_map_filter)
  moreover have "(key, v) \<in> set (filter (\<lambda>p. snd p \<noteq> []) ps)"
    using assms(6,7) by simp
  ultimately have "map_of (filter (\<lambda>p. snd p \<noteq> []) ps) key = Some v"
    by simp
  with re_search_render_params [OF assms(1,2,3,4)] show ?thesis
    by (simp add: challenge_header_def)
qed


text \<open>
  Claim C6, as stated, fails on the code. The credential identifier is an opaque string,
  and one that ends in \<open>invoice=\<close> (a base64 string with one padding character may)
  puts the text \<^verbatim>\<open>invoice="\<close> in front of the real key when the macaroon comes
  first: the search finds it there and takes the separator and the real key for the
  invoice. With the invoice first the same two pairs parse as written. Likewise a
  further parameter whose key ends in \<open>macaroon\<close> and which comes first is not
  ignored: its value is taken for the macaroon.
\<close>

theorem parse_depends_on_order:
  "re_search ''invoice''
     (challenge_header ''L402'' [(''macaroon'', ''AAAAinvoice=''), (''invoice'', ''lnbc1'')])
     = Some '', invoice=''
   \<and> re_search ''invoice''
     (challenge_header ''L402'' [(''invoice'', ''lnbc1''), (''macaroon'', ''AAAAinvoice='')])
     = Some ''lnbc1''
   \<and> re_search ''macaroon''
     (challenge_header ''L402'' [(''macaroon'', ''M1''), (''invoice'', ''lnbc1'')])
     = Some ''M1''
   \<and> re_search ''macaroon''
     (challenge_header ''L402'' [(''xmacaroon'', ''X1''), (''macaroon'', ''M1''), (''invoice'', ''lnbc1'')])
     = Some ''X1''"
  by (simp add: challenge_header_def quoted_def dquote_def match_at_def quoted_group_def)

text \<open>
  Claim C6, amended. Take a header \<^verbatim>\<open><scheme> k1="v1", ..., kn="vn"\<close> with the scheme
  \<open>L402\<close> or \<open>LSAT\<close> and distinct keys, among them \<open>macaroon\<close> with the value \<open>M\<close>
  and \<open>invoice\<close> with the value \<open>I\<close>, both not empty. If no key and no value contains
  a double quote, no value ends in \<open>macaroon=\<close> or \<open>invoice=\<close>, and no other key ends
  in \<open>macaroon\<close> or \<open>invoice\<close>, then the session extracts \<open>M\<close> and \<open>I\<close>. The
  parameters are an arbitrary list, so their order and the other parameters among them
  make no difference.
\<close>

theorem parse_independent_of_order:
  assumes "scheme = ''L402'' \<or> scheme = ''LSAT''"
    and "distinct (map fst ps)"
    and "(''macaroon'', M) \<in> set ps" and "M \<noteq> []"
    and "(''invoice'', I) \<in> set ps" and "I \<noteq> []"
    and "\<forall>p \<in> set ps. plain_for ''macaroon'' p \<and> plain_for ''invoice'' p"
  shows "re_search ''macaroon'' (challenge_header scheme ps) = Some M
         \<and> re_search ''invoice'' (challenge_header scheme ps) = Some I"
proof -
  from assms(1) have s: "dquote \<notin> set scheme"
    by (auto simp: dquote_def)
  have m: "dquote \<notin> set ''macaroon''" "CHR '' '' \<notin> set ''macaroon''"
    and i: "dquote \<notin> set ''invoice''" "CHR '' '' \<notin> set ''invoice''"
    by (simp_all add: dquote_def)
  from assms(7) have pm: "\<forall>p \<in> set ps. plain_for ''macaroon'' p"
    and pi: "\<forall>p \<in> set ps. plain_for ''invoice'' p"
    by simp_all
  from re_search_challenge_header [OF m s pm assms(2,3,4)]
    re_search_challenge_header [OF i s pi assms(2,5,6)]
  show ?thesis by simp
qed

theorem parse_independent_of_order_witness:
  "re_search ''macaroon''
     (challenge_header ''LSAT'' [(''invoice'', ''lnbc1''), (''version'', ''0''), (''macaroon'', ''M1'')])
     = Some ''M1''
   \<and> re_search ''invoice''
     (challenge_header ''LSAT'' [(''invoice'', ''lnbc1''), (''version'', ''0''), (''macaroon'', ''M1'')])
     = Some ''lnbc1''
   \<and> re_search ''macaroon''
     (challenge_header ''LSAT'' [(''macaroon'', ''M1''), (''invoice'', ''lnbc1'')])
     = Some ''M1''
   \<and> re_search ''invoice''
     (challenge_header ''LSAT'' [(''macaroon'', ''M1''), (''invoice'', ''lnbc1'')])
     = Some ''lnbc1''"
proof -
  let ?ps = "[(''invoice'', ''lnbc1''), (''version'', ''0''), (''macaroon'', ''M1'')]"
  let ?qs = "[(''macaroon'', ''M1''), (''invoice'', ''lnbc1'')]"
  have 1: "''LSAT'' = ''L402'' \<or> ''LSAT'' = ''LSAT''"
    by simp
  have 2: "distinct (map fst ?ps)" "distinct (map fst ?qs)"
    by simp_all
  have 3: "(''macaroon'', ''M1'') \<in> set ?ps" "(''macaroon'', ''M1'') \<in> set ?qs"
    by simp_all
  have 4: "''M1'' \<noteq> []"
    by simp
  have 5: "(''invoice'', ''lnbc1'') \<in> set ?ps" "(''invoice'', ''lnbc1'') \<in> set ?qs"
    by simp_all
  have 6: "''lnbc1'' \<noteq> []"
    by simp
  have 7: "\<forall>p \<in> set ?ps. plain_for ''macaroon'' p \<and> plain_for ''invoice'' p"
    "\<forall>p \<in> set ?qs. plain_for ''macaroon'' p \<and> plain_for ''invoice'' p"
    by (simp_all add: plain_for_def dquote_def suffix_Cons)
  from parse_independent_of_order [OF 1 2(1) 3(1) 4 5(1) 6 7(1)]
    parse_independent_of_order [OF 1 2(2) 3(2) 4 5(2) 6 7(2)]
  show ?thesis by blast
qed

end
